theory Spec2Isabelle
  imports Main "HOL-Library.Sublist"
begin

section \<open>Python values\<close>

text \<open>
  The scripts work on Python's unbounded integers (\<open>int\<close>), on strings (\<open>string\<close>) and on
  lists. An exception is a value: the left injection of a sum type. \<open>partion.py\<close> raises
  only \<open>ValueError\<close>; \<open>OverflowError\<close> is the other built-in exception class that the
  statements below have to tell apart from it, and no function of the model builds it.
\<close>

datatype py_exception =
    is_ValueError: ValueError (message: string)
  | is_OverflowError: OverflowError (message: string)

text \<open>
  The dictionary built for each partition by \<open>calculate_partitions\<close> always has the four
  keys \<open>'name'\<close>, \<open>'start'\<close>, \<open>'end'\<close> and \<open>'size'\<close>; it is a record with these fields.
\<close>

record partition_info =
  p_name :: string
  p_start :: int
  p_end :: int
  p_size :: int

section \<open>\<open>partion.py\<close>: the layout calculator\<close>

text \<open>The f-string \<^verbatim>\<open>f"Partition '{name}' exceeds flash size!"\<close>.\<close>

definition exceeds_message :: "string \<Rightarrow> string" where
  "exceeds_message name =
     ''Partition '' @ [CHR 0x27] @ name @ [CHR 0x27] @ '' exceeds flash size!''"

text \<open>
  The \<^verbatim>\<open>for name, size in partitions\<close> loop of \<open>calculate_partitions\<close>, with its two
  variables \<open>current_address\<close> and \<open>partition_layout\<close> as arguments. A \<^verbatim>\<open>raise\<close> leaves
  the loop and the function at once.
\<close>

fun calculate_loop ::
  "int \<Rightarrow> int \<Rightarrow> partition_info list \<Rightarrow> (string \<times> int) list
     \<Rightarrow> py_exception + partition_info list" where
  "calculate_loop flash_size current_address partition_layout [] = Inr partition_layout"
| "calculate_loop flash_size current_address partition_layout ((name, size') # rest) =
     (if current_address + size' > flash_size
      then Inl (ValueError (exceeds_message name))
      else calculate_loop flash_size (current_address + size')
             (partition_layout @
                [\<lparr>p_name = name, p_start = current_address,
                  p_end = current_address + size', p_size = size'\<rparr>])
             rest)"

definition calculate_partitions ::
  "int \<Rightarrow> (string \<times> int) list \<Rightarrow> py_exception + partition_info list" where
  "calculate_partitions flash_size partitions = calculate_loop flash_size 0 [] partitions"

section \<open>\<open>partion.py\<close>: the configuration of \<open>main\<close>\<close>

definition FLASH_SIZE :: int where
  "FLASH_SIZE = 1024 * 1024"

definition mcuboot :: int where
  "mcuboot = 110 * 1024"

definition storage :: int where
  "storage = 76 * 1024"

definition scratch :: int where
  "scratch = 1 * 1024"

text \<open>Python's \<^verbatim>\<open>//\<close> rounds towards minus infinity, as \<open>div\<close> on \<open>int\<close> does.\<close>

definition slot0_partition :: int where
  "slot0_partition = (FLASH_SIZE - mcuboot - storage - scratch) div 2"

definition slot1_partition :: int where
  "slot1_partition = slot0_partition"

definition main_partitions :: "(string \<times> int) list" where
  "main_partitions =
     [(''mcuboot'', mcuboot),
      (''slot0'', slot0_partition),
      (''slot1'', slot1_partition),
      (''scratch'', scratch),
      (''storage'', storage)]"

text \<open>The call \<^verbatim>\<open>layout = calculate_partitions(FLASH_SIZE, partitions)\<close> of \<open>main\<close>.\<close>

definition main_layout :: "py_exception + partition_info list" where
  "main_layout = calculate_partitions FLASH_SIZE main_partitions"

section \<open>Python's integer formatting\<close>

definition hex_digit :: "nat \<Rightarrow> char" where
  "hex_digit d = ''0123456789abcdef'' ! d"

text \<open>The lower-case hexadecimal digits of a natural number, at least one digit.\<close>

fun hex_digits :: "nat \<Rightarrow> string" where
  "hex_digits n =
     (if n < 16 then [hex_digit n] else hex_digits (n div 16) @ [hex_digit (n mod 16)])"

declare hex_digits.simps [simp del]

definition sign_of :: "int \<Rightarrow> string" where
  "sign_of n = (if n < 0 then ''-'' else [])"

text \<open>The format \<^verbatim>\<open>{n:x}\<close>: a minus sign for a negative number, then the digits.\<close>

definition format_x :: "int \<Rightarrow> string" where
  "format_x n = sign_of n @ hex_digits (nat \<bar>n\<bar>)"

text \<open>The format \<^verbatim>\<open>{n:#x}\<close>: sign, the prefix \<^verbatim>\<open>0x\<close>, the digits.\<close>

definition format_alt_x :: "int \<Rightarrow> string" where
  "format_alt_x n = sign_of n @ ''0x'' @ hex_digits (nat \<bar>n\<bar>)"

text \<open>
  The format \<^verbatim>\<open>{n:#010x}\<close>: a minimum width of 10 characters, reached by zeros
  inserted between the prefix and the digits; a longer number is printed in full.
\<close>

definition format_alt_010x :: "int \<Rightarrow> string" where
  "format_alt_010x n =
     (let sign = sign_of n;
          digits = hex_digits (nat \<bar>n\<bar>);
          used = length sign + 2 + length digits
      in sign @ ''0x'' @ replicate (10 - used) (CHR ''0'') @ digits)"

section \<open>\<open>partion.py\<close>: the two name tables\<close>

definition name_mapping :: "(string \<times> string) list" where
  "name_mapping =
     [(''mcuboot'', ''mcuboot''),
      (''slot0'', ''mcuboot_primary''),
      (''slot1'', ''mcuboot_secondary''),
      (''scratch'', ''mcuboot_scratch''),
      (''storage'', ''settings_storage'')]"

text \<open>\<^verbatim>\<open>name_mapping.get(partition_name, partition_name)\<close>\<close>

definition get_pm_static_name :: "string \<Rightarrow> string" where
  "get_pm_static_name partition_name =
     (case map_of name_mapping partition_name of
        Some pm_name \<Rightarrow> pm_name
      | None \<Rightarrow> partition_name)"

definition label_mapping :: "(string \<times> string) list" where
  "label_mapping =
     [(''mcuboot'', ''mcuboot''),
      (''slot0'', ''image-0''),
      (''slot1'', ''image-1''),
      (''scratch'', ''image-scratch''),
      (''storage'', ''storage'')]"

definition get_overlay_label :: "string \<Rightarrow> string" where
  "get_overlay_label partition_name =
     (case map_of label_mapping partition_name of
        Some label \<Rightarrow> label
      | None \<Rightarrow> partition_name)"

section \<open>\<open>partion.py\<close>: the partition-manager emitter\<close>

text \<open>
  \<open>update_pm_static_yml\<close> builds the text in the variable \<open>pm_static_content\<close> and writes
  it to the file \<^verbatim>\<open>pm_static.yml\<close>. The model returns the text written. The loop body
  appends five pieces, one \<^verbatim>\<open>+=\<close> each.
\<close>

fun pm_static_loop :: "string \<Rightarrow> partition_info list \<Rightarrow> string" where
  "pm_static_loop pm_static_content [] = pm_static_content"
| "pm_static_loop pm_static_content (partition' # rest) =
     (let pm_name = get_pm_static_name (p_name partition');
          c1 = pm_static_content @ pm_name @ '':\<newline>'';
          c2 = c1 @ ''  address: '' @ format_alt_x (p_start partition') @ ''\<newline>'';
          c3 = c2 @ ''  end_address: '' @ format_alt_x (p_end partition') @ ''\<newline>'';
          c4 = c3 @ ''  region: flash_primary\<newline>'';
          c5 = c4 @ ''  size: '' @ format_alt_x (p_size partition') @ ''\<newline>\<newline>''
      in pm_static_loop c5 rest)"

definition update_pm_static_yml :: "partition_info list \<Rightarrow> string" where
  "update_pm_static_yml partitions =
     (let c0 = ''# Auto-generated pm_static.yml from partion.py\<newline>'';
          c1 = c0 @ ''# Nordic Partition Manager static configuration\<newline>\<newline>''
      in pm_static_loop c1 partitions)"

section \<open>\<open>partion.py\<close>: the overlay emitter\<close>

text \<open>The tabulator \<^verbatim>\<open>\t\<close> and the double quote of the Python literals.\<close>

definition TAB :: string where
  "TAB = [CHR 0x09]"

definition DQUOTE :: string where
  "DQUOTE = [CHR 0x22]"

text \<open>The \<^verbatim>\<open>if\<close>/\<^verbatim>\<open>elif\<close> chain on the partition's name; no branch for any other name.\<close>

definition special_properties :: "string \<Rightarrow> string" where
  "special_properties name =
     (if name = ''mcuboot'' then TAB @ TAB @ TAB @ ''read-only;\<newline>''
      else if name = ''slot0'' then TAB @ TAB @ TAB @ ''// Primary application slot\<newline>''
      else if name = ''slot1'' then TAB @ TAB @ TAB @ ''// Secondary application slot\<newline>''
      else if name = ''scratch'' then TAB @ TAB @ TAB @ ''// MCUboot scratch area\<newline>''
      else if name = ''storage'' then TAB @ TAB @ TAB @ ''// Settings storage\<newline>''
      else [])"

fun overlay_loop :: "string \<Rightarrow> partition_info list \<Rightarrow> string" where
  "overlay_loop overlay_content [] = overlay_content"
| "overlay_loop overlay_content (partition' # rest) =
     (let overlay_label = get_overlay_label (p_name partition');
          partition_node_name = p_name partition' @ ''_partition'';
          c1 = overlay_content @ TAB @ TAB @ partition_node_name @ '': partition@''
                 @ format_x (p_start partition') @ '' {\<newline>'';
          c2 = c1 @ TAB @ TAB @ TAB @ ''label = '' @ DQUOTE @ overlay_label @ DQUOTE
                 @ '';\<newline>'';
          c3 = c2 @ TAB @ TAB @ TAB @ ''reg = <'' @ format_alt_010x (p_start partition')
                 @ '' '' @ format_alt_010x (p_size partition') @ ''>;\<newline>'';
          c4 = c3 @ special_properties (p_name partition');
          c5 = c4 @ TAB @ TAB @ ''};\<newline>\<newline>''
      in overlay_loop c5 rest)"

text \<open>The text built before the loop: two comment lines, the root node, the container.\<close>

definition overlay_preamble :: string where
  "overlay_preamble =
     (let c0 = ''// Auto-generated app.overlay from partion.py\<newline>'';
          c1 = c0 @ ''// Device tree overlay for partition configuration\<newline>\<newline>'';
          c2 = c1 @ ''/ {\<newline>'';
          c3 = c2 @ TAB @ ''chosen {\<newline>'';
          c4 = c3 @ TAB @ TAB @ ''zephyr,code-partition = &slot0_partition;\<newline>'';
          c5 = c4 @ TAB @ ''};\<newline>'';
          c6 = c5 @ ''};\<newline>\<newline>'';
          c7 = c6 @ ''&flash0 {\<newline>'';
          c8 = c7 @ TAB @ ''partitions {\<newline>'';
          c9 = c8 @ TAB @ TAB @ ''compatible = '' @ DQUOTE @ ''fixed-partitions'' @ DQUOTE
                 @ '';\<newline>'';
          c10 = c9 @ TAB @ TAB @ ''#address-cells = <1>;\<newline>'';
          c11 = c10 @ TAB @ TAB @ ''#size-cells = <1>;\<newline>\<newline>''
      in c11)"

text \<open>\<open>update_app_overlay\<close> returns the text it writes to \<^verbatim>\<open>app.overlay\<close>.\<close>

definition update_app_overlay :: "partition_info list \<Rightarrow> string" where
  "update_app_overlay partitions =
     (let c1 = overlay_loop overlay_preamble partitions;
          c2 = c1 @ TAB @ ''};\<newline>'';
          c3 = c2 @ ''};\<newline>''
      in c3)"

section \<open>\<open>analyze_flash.py\<close>: reading the partition-manager file\<close>

text \<open>
  A character of the model is a code point below 256. \<open>str.strip()\<close> removes the
  characters for which \<open>str.isspace\<close> holds; below 256 these are the codes 9 to 13,
  28 to 32, 133 and 160.
\<close>

definition is_space :: "char \<Rightarrow> bool" where
  "is_space c =
     (let n = (of_char c :: nat)
      in (9 \<le> n \<and> n \<le> 13) \<or> (28 \<le> n \<and> n \<le> 32) \<or> n = 133 \<or> n = 160)"

definition strip :: "string \<Rightarrow> string" where
  "strip s = rev (dropWhile is_space (rev (dropWhile is_space s)))"

text \<open>\<^verbatim>\<open>s.rstrip(':')\<close> removes every colon at the end.\<close>

definition rstrip_colon :: "string \<Rightarrow> string" where
  "rstrip_colon s = rev (dropWhile (\<lambda>c. c = CHR '':'') (rev s))"

text \<open>\<^verbatim>\<open>s.split(':', 1)\<close> for a string that contains a colon: the text before and after the first one.\<close>

definition split_colon :: "string \<Rightarrow> string \<times> string" where
  "split_colon s =
     (takeWhile (\<lambda>c. c \<noteq> CHR '':'') s, drop 1 (dropWhile (\<lambda>c. c \<noteq> CHR '':'') s))"

text \<open>
  Iterating over a file opened in text mode yields its lines, each with its line end.
  The default (universal newlines) takes \<^verbatim>\<open>\n\<close>, \<^verbatim>\<open>\r\<close> and \<^verbatim>\<open>\r\n\<close> as line ends and
  hands each one over as \<^verbatim>\<open>\n\<close>. The flag says that the previous character was a
  \<^verbatim>\<open>\r\<close>, whose line has been closed already; \<open>cur\<close> is the line read so far.
\<close>

fun file_lines_from :: "bool \<Rightarrow> string \<Rightarrow> string \<Rightarrow> string list" where
  "file_lines_from after_cr cur [] = (if cur = [] then [] else [cur])"
| "file_lines_from after_cr cur (c # cs) =
     (if c = CHR 0x0D then (cur @ ''\<newline>'') # file_lines_from True [] cs
      else if c = CHR ''\<newline>'' then
        (if after_cr then file_lines_from False [] cs
         else (cur @ ''\<newline>'') # file_lines_from False [] cs)
      else file_lines_from False (cur @ [c]) cs)"

definition file_lines :: "string \<Rightarrow> string list" where
  "file_lines text = file_lines_from False [] text"

text \<open>
  \<^verbatim>\<open>int(value, 16)\<close>. The value of one digit, in either case; then the digits, where
  a single underscore may stand between two digits; then the whole literal: surrounding
  white space, a sign, the prefix \<^verbatim>\<open>0x\<close> or \<^verbatim>\<open>0X\<close> (after which one underscore may
  stand), and at least one digit. \<open>None\<close> is the \<open>ValueError\<close> of a malformed literal.
  The white space that \<open>int\<close> skips is narrower than that of \<open>str.strip()\<close>: the codes
  9 to 13 and 32, and 133 and 160 (which \<open>int\<close> first turns into blanks), but not the
  codes 28 to 31.
\<close>

definition is_int_space :: "char \<Rightarrow> bool" where
  "is_int_space c =
     (let n = (of_char c :: nat)
      in (9 \<le> n \<and> n \<le> 13) \<or> n = 32 \<or> n = 133 \<or> n = 160)"

definition int_strip :: "string \<Rightarrow> string" where
  "int_strip s = rev (dropWhile is_int_space (rev (dropWhile is_int_space s)))"

definition hex_digit_value :: "char \<Rightarrow> nat option" where
  "hex_digit_value c =
     (let n = (of_char c :: nat) in
      if 48 \<le> n \<and> n \<le> 57 then Some (n - 48)
      else if 97 \<le> n \<and> n \<le> 102 then Some (n - 87)
      else if 65 \<le> n \<and> n \<le> 70 then Some (n - 55)
      else None)"

fun scan_digits :: "bool \<Rightarrow> nat \<Rightarrow> string \<Rightarrow> nat option" where
  "scan_digits after_underscore acc [] = (if after_underscore then None else Some acc)"
| "scan_digits after_underscore acc (c # cs) =
     (if c = CHR ''_'' then
        (if after_underscore then None else scan_digits True acc cs)
      else
        (case hex_digit_value c of
           None \<Rightarrow> None
         | Some d \<Rightarrow> scan_digits False (16 * acc + d) cs))"

definition int_base16 :: "string \<Rightarrow> int option" where
  "int_base16 value =
     (let s = int_strip value;
          negative = (take 1 s = ''-'');
          s1 = (if take 1 s = ''-'' \<or> take 1 s = ''+'' then drop 1 s else s);
          has_prefix = (take 2 s1 = ''0x'' \<or> take 2 s1 = ''0X'');
          s2 = (if has_prefix then drop 2 s1 else s1);
          s3 = (if has_prefix \<and> take 1 s2 = ''_'' then drop 1 s2 else s2)
      in if s3 = [] \<or> take 1 s3 = ''_'' then None
         else (case scan_digits False 0 s3 of
                 None \<Rightarrow> None
               | Some n \<Rightarrow> Some (if negative then - int n else int n)))"

text \<open>
  A Python dictionary keeps its keys in the order of their first insertion; an assignment
  to a key that is present replaces the value in place.
\<close>

fun dict_set :: "('k \<times> 'v) list \<Rightarrow> 'k \<Rightarrow> 'v \<Rightarrow> ('k \<times> 'v) list" where
  "dict_set [] k v = [(k, v)]"
| "dict_set ((k', v') # d) k v =
     (if k' = k then (k, v) # d else (k', v') # dict_set d k v)"

type_synonym partition_fields = "(string \<times> int) list"

type_synonym partition_dict = "(string \<times> partition_fields) list"

text \<open>
  The body of the loop \<^verbatim>\<open>for line in f\<close> of \<open>analyze_partition_usage\<close>, on the state
  \<open>(current_partition, partitions)\<close>. \<open>None\<close> stands for an exception in the body, which
  the \<^verbatim>\<open>except Exception\<close> clause turns into the result \<open>None\<close>: the \<open>ValueError\<close> of
  \<open>int\<close>, or the \<open>KeyError\<close> of \<^verbatim>\<open>partitions[current_partition]\<close>. The condition
  \<^verbatim>\<open>current_partition\<close> holds for a string that is not empty.
\<close>

definition parse_line ::
  "string option \<times> partition_dict \<Rightarrow> string \<Rightarrow> (string option \<times> partition_dict) option" where
  "parse_line state raw =
     (let current_partition = fst state;
          partitions = snd state;
          line = strip raw
      in if line \<noteq> [] \<and> \<not> prefix ''#'' line then
           if CHR '':'' \<in> set line \<and> \<not> prefix '' '' line then
             (let current_partition = rstrip_colon line
              in Some (Some current_partition, dict_set partitions current_partition []))
           else
             (case current_partition of
                None \<Rightarrow> Some (current_partition, partitions)
              | Some current \<Rightarrow>
                  if current \<noteq> [] \<and> CHR '':'' \<in> set line then
                    (let key = strip (fst (split_colon line));
                         value = strip (snd (split_colon line))
                     in if key \<in> set [''size'', ''address'', ''end_address''] then
                          (case int_base16 value of
                             None \<Rightarrow> None
                           | Some n \<Rightarrow>
                               (case map_of partitions current of
                                  None \<Rightarrow> None
                                | Some entry \<Rightarrow>
                                    Some (current_partition,
                                          dict_set partitions current (dict_set entry key n))))
                        else Some (current_partition, partitions))
                  else Some (current_partition, partitions))
         else Some (current_partition, partitions))"

fun parse_lines ::
  "string option \<times> partition_dict \<Rightarrow> string list \<Rightarrow> (string option \<times> partition_dict) option" where
  "parse_lines state [] = Some state"
| "parse_lines state (line # rest) =
     (case parse_line state line of
        None \<Rightarrow> None
      | Some state' \<Rightarrow> parse_lines state' rest)"

text \<open>
  \<open>analyze_partition_usage\<close> on the content of \<^verbatim>\<open>pm_static.yml\<close>, \<open>None\<close> when the file
  does not exist. The result \<open>None\<close> is Python's \<open>None\<close>.
\<close>

definition analyze_partition_usage :: "string option \<Rightarrow> partition_dict option" where
  "analyze_partition_usage pm_static =
     (case pm_static of
        None \<Rightarrow> None
      | Some text \<Rightarrow>
          (case parse_lines (None, []) (file_lines text) of
             None \<Rightarrow> None
           | Some state \<Rightarrow> Some (snd state)))"

section \<open>Notions used in the statements\<close>

text \<open>The sum of the sizes of the first \<open>k\<close> requests.\<close>

definition cumulative :: "(string \<times> int) list \<Rightarrow> nat \<Rightarrow> int" where
  "cumulative requests k = sum_list (map snd (take k requests))"

text \<open>The records that a run from address \<open>cur\<close> appends when no request overflows.\<close>

fun layout_from :: "int \<Rightarrow> (string \<times> int) list \<Rightarrow> partition_info list" where
  "layout_from cur [] = []"
| "layout_from cur ((name, size') # rest) =
     \<lparr>p_name = name, p_start = cur, p_end = cur + size', p_size = size'\<rparr>
       # layout_from (cur + size') rest"

text \<open>
  A 32-bit value in hexadecimal: the prefix \<^verbatim>\<open>0x\<close> and exactly eight lower-case digits.
\<close>

definition is_hex32 :: "string \<Rightarrow> bool" where
  "is_hex32 s \<longleftrightarrow>
     length s = 10 \<and> take 2 s = ''0x''
     \<and> list_all (\<lambda>c. c \<in> set ''0123456789abcdef'') (drop 2 s)"

text \<open>
  The tuples that a parsed partition dictionary holds: for each key, in order, the values
  stored under \<open>'address'\<close>, \<open>'end_address'\<close> and \<open>'size'\<close>, where present.
\<close>

definition recovered_tuples ::
  "partition_dict \<Rightarrow> (string \<times> int option \<times> int option \<times> int option) list" where
  "recovered_tuples partitions =
     map (\<lambda>(name, entry).
           (name, map_of entry ''address'', map_of entry ''end_address'', map_of entry ''size''))
         partitions"

text \<open>The tuples of a record sequence, in the same shape.\<close>

definition record_tuples ::
  "partition_info list \<Rightarrow> (string \<times> int option \<times> int option \<times> int option) list" where
  "record_tuples records =
     map (\<lambda>r. (p_name r, Some (p_start r), Some (p_end r), Some (p_size r))) records"

text \<open>
  The key that one line of the file puts into the dictionary, if any: the stripped line
  without its final colons, when the stripped line is not empty, is not a comment and
  holds a colon.
\<close>

definition line_key :: "string \<Rightarrow> string option" where
  "line_key raw =
     (let line = strip raw
      in if line \<noteq> [] \<and> \<not> prefix ''#'' line \<and> CHR '':'' \<in> set line
         then Some (rstrip_colon line) else None)"

section \<open>The calculator: auxiliary facts\<close>

lemma calculate_loop_fits:
  "\<forall>i < length requests. cur + cumulative requests (Suc i) \<le> flash
   \<Longrightarrow> calculate_loop flash cur acc requests = Inr (acc @ layout_from cur requests)"
proof (induction requests arbitrary: cur acc)
  case Nil
  show ?case by simp
next
  case (Cons r rest)
  obtain name sz where r: "r = (name, sz)" by (cases r)
  from Cons.prems have fits: "cur + sz \<le> flash"
    by (auto simp: r cumulative_def dest: spec [of _ 0])
  have "\<forall>i < length rest. (cur + sz) + cumulative rest (Suc i) \<le> flash"
  proof (intro allI impI)
    fix i assume "i < length rest"
    with Cons.prems have "cur + cumulative (r # rest) (Suc (Suc i)) \<le> flash"
      by (auto dest: spec [of _ "Suc i"])
    then show "(cur + sz) + cumulative rest (Suc i) \<le> flash"
      by (simp add: r cumulative_def)
  qed
  from Cons.IH [OF this] fits show ?case
    by (simp add: r)
qed

lemma layout_from_length: "length (layout_from cur requests) = length requests"
  by (induction requests arbitrary: cur) auto

lemma layout_from_nth:
  "i < length requests \<Longrightarrow>
   layout_from cur requests ! i =
     \<lparr>p_name = fst (requests ! i),
      p_start = cur + cumulative requests i,
      p_end = cur + cumulative requests (Suc i),
      p_size = snd (requests ! i)\<rparr>"
proof (induction requests arbitrary: cur i)
  case Nil
  then show ?case by simp
next
  case (Cons r rest)
  obtain name sz where r: "r = (name, sz)" by (cases r)
  show ?case
  proof (cases i)
    case 0
    then show ?thesis by (simp add: r cumulative_def)
  next
    case (Suc k)
    with Cons.prems have "k < length rest" by simp
    from Cons.IH [OF this, of "cur + sz"] show ?thesis
      by (simp add: r Suc cumulative_def)
  qed
qed

lemma cumulative_mono:
  assumes "\<forall>r \<in> set requests. 0 \<le> snd r" and "i \<le> j"
  shows "cumulative requests i \<le> cumulative requests j"
proof -
  from \<open>i \<le> j\<close> obtain d where j: "j = i + d" by (auto simp: le_iff_add)
  have "take (i + d) requests = take i requests @ take d (drop i requests)"
    by (simp add: take_add)
  moreover have "0 \<le> sum_list (map snd (take d (drop i requests)))"
  proof (rule sum_list_nonneg)
    fix x assume "x \<in> set (map snd (take d (drop i requests)))"
    then obtain r where "r \<in> set (take d (drop i requests))" "x = snd r" by auto
    then have "r \<in> set requests" by (meson in_set_dropD in_set_takeD)
    with assms(1) \<open>x = snd r\<close> show "0 \<le> x" by simp
  qed
  ultimately show ?thesis by (simp add: cumulative_def j)
qed

lemma cumulative_all: "cumulative requests (length requests) = sum_list (map snd requests)"
  by (simp add: cumulative_def)

lemma cumulative_Suc:
  "i < length requests \<Longrightarrow> cumulative requests (Suc i) = cumulative requests i + snd (requests ! i)"
  by (simp add: cumulative_def take_Suc_conv_app_nth)

lemma calculate_loop_fails:
  "i < length requests
   \<Longrightarrow> flash < cur + cumulative requests (Suc i)
   \<Longrightarrow> \<forall>j < i. cur + cumulative requests (Suc j) \<le> flash
   \<Longrightarrow> calculate_loop flash cur acc requests =
        Inl (ValueError (exceeds_message (fst (requests ! i))))"
proof (induction requests arbitrary: cur acc i)
  case Nil
  then show ?case by simp
next
  case (Cons r rest)
  obtain name sz where r: "r = (name, sz)" by (cases r)
  show ?case
  proof (cases i)
    case 0
    with Cons.prems(2) show ?thesis by (simp add: r cumulative_def)
  next
    case (Suc k)
    from Cons.prems(3) Suc have fits: "cur + sz \<le> flash"
      by (auto simp: r cumulative_def dest: spec [of _ 0])
    have k: "k < length rest" using Cons.prems(1) Suc by simp
    have over: "flash < (cur + sz) + cumulative rest (Suc k)"
      using Cons.prems(2) by (simp add: r Suc cumulative_def)
    have before: "\<forall>j < k. (cur + sz) + cumulative rest (Suc j) \<le> flash"
    proof (intro allI impI)
      fix j assume "j < k"
      then have "Suc j < i" by (simp add: Suc)
      with Cons.prems(3) have "cur + cumulative (r # rest) (Suc (Suc j)) \<le> flash" by blast
      then show "(cur + sz) + cumulative rest (Suc j) \<le> flash"
        by (simp add: r cumulative_def)
    qed
    from Cons.IH [OF k over before] fits show ?thesis
      by (simp add: r Suc)
  qed
qed

lemma first_overflow_exists:
  assumes "\<exists>i < length requests. flash < cumulative requests (Suc i)"
  shows "\<exists>i < length requests. flash < cumulative requests (Suc i)
           \<and> (\<forall>j < i. cumulative requests (Suc j) \<le> flash)"
proof -
  define P where "P i \<longleftrightarrow> i < length requests \<and> flash < cumulative requests (Suc i)" for i
  from assms have "\<exists>i. P i" by (auto simp: P_def)
  then obtain i where i: "P i" and least: "\<forall>j < i. \<not> P j"
    using exists_least_iff [of P] by blast
  have "\<forall>j < i. cumulative requests (Suc j) \<le> flash"
  proof (intro allI impI)
    fix j assume "j < i"
    with least have "\<not> P j" by blast
    moreover from \<open>j < i\<close> i have "j < length requests" by (simp add: P_def)
    ultimately show "cumulative requests (Suc j) \<le> flash" by (simp add: P_def)
  qed
  with i show ?thesis by (auto simp: P_def)
qed

lemma computed_layout_bounds:
  assumes nonneg: "\<forall>q \<in> set requests. 0 \<le> snd q"
      and run: "calculate_partitions capacity requests = Inr layout"
      and r: "r \<in> set layout"
  shows "0 \<le> p_start r \<and> p_start r \<le> capacity \<and> 0 \<le> p_size r \<and> p_size r \<le> capacity"
proof (cases "\<exists>i < length requests. capacity < cumulative requests (Suc i)")
  case True
  from first_overflow_exists [OF this]
  obtain i where i: "i < length requests" "capacity < cumulative requests (Suc i)"
    "\<forall>j < i. cumulative requests (Suc j) \<le> capacity" by blast
  from calculate_loop_fails [of i requests capacity 0 "[]"] i run show ?thesis
    by (simp add: calculate_partitions_def)
next
  case False
  then have fits: "\<forall>i < length requests. 0 + cumulative requests (Suc i) \<le> capacity"
    by (metis add_0 not_less)
  from calculate_loop_fits [OF this, of "[]"] run
  have layout: "layout = layout_from 0 requests"
    by (simp add: calculate_partitions_def)
  with r obtain i where i: "i < length requests" and ri: "r = layout_from 0 requests ! i"
    by (auto simp: in_set_conv_nth layout_from_length)
  from layout_from_nth [OF i, of 0] ri
  have start: "p_start r = cumulative requests i"
    and size: "p_size r = snd (requests ! i)" by simp_all
  have zero: "cumulative requests 0 = 0" by (simp add: cumulative_def)
  from cumulative_mono [OF nonneg, of 0 i] zero have lo: "0 \<le> cumulative requests i" by simp
  from i nonneg have sz: "0 \<le> snd (requests ! i)" by simp
  from fits i have hi: "cumulative requests (Suc i) \<le> capacity" by simp
  from cumulative_Suc [OF i] lo sz hi start size show ?thesis by simp
qed

section \<open>Formatting and reading hexadecimal numbers: auxiliary facts\<close>

lemma hex_digit_value_hex_digit:
  assumes "d < 16"
  shows "hex_digit_value (hex_digit d) = Some d"
proof -
  from assms have "d \<in> {0, 1, 2, 3, 4, 5, 6, 7, 8, 9, 10, 11, 12, 13, 14, 15}" by simp arith
  then show ?thesis
    by (elim insertE emptyE) (simp_all add: hex_digit_def hex_digit_value_def)
qed

lemma hex_digit_not_underscore:
  assumes "d < 16"
  shows "hex_digit d \<noteq> CHR ''_''"
  using hex_digit_value_hex_digit [OF assms] by (auto simp: hex_digit_value_def)

lemma hex_digit_not_space:
  assumes "d < 16"
  shows "\<not> is_int_space (hex_digit d)"
proof -
  from assms have "d \<in> {0, 1, 2, 3, 4, 5, 6, 7, 8, 9, 10, 11, 12, 13, 14, 15}" by simp arith
  then show ?thesis
    by (elim insertE emptyE) (simp_all add: hex_digit_def is_int_space_def)
qed

lemma hex_digit_in_alphabet:
  assumes "d < 16"
  shows "hex_digit d \<in> set ''0123456789abcdef''"
  unfolding hex_digit_def using assms by (intro nth_mem) simp

lemma hex_digits_nonempty: "hex_digits n \<noteq> []"
  by (subst hex_digits.simps) simp

lemma hex_digits_last: "last (hex_digits n) = hex_digit (n mod 16)"
  by (subst hex_digits.simps) simp

lemma hex_digits_alphabet: "set (hex_digits n) \<subseteq> set ''0123456789abcdef''"
proof (induction n rule: hex_digits.induct)
  case (1 n)
  show ?case
  proof (cases "n < 16")
    case True
    with hex_digit_in_alphabet [of n] show ?thesis
      by (subst hex_digits.simps) simp
  next
    case False
    with "1.IH" hex_digit_in_alphabet [of "n mod 16"] show ?thesis
      by (subst hex_digits.simps) simp
  qed
qed

lemma scan_digits_hex_digits:
  "scan_digits False acc (hex_digits n @ rest) =
     scan_digits False (acc * 16 ^ length (hex_digits n) + n) rest"
proof (induction n arbitrary: acc rest rule: hex_digits.induct)
  case (1 n)
  show ?case
  proof (cases "n < 16")
    case True
    then have "hex_digits n = [hex_digit n]" by (subst hex_digits.simps) simp
    with True show ?thesis
      by (simp add: hex_digit_value_hex_digit hex_digit_not_underscore mult.commute)
  next
    case False
    let ?d = "hex_digit (n mod 16)"
    have d: "n mod 16 < 16" by simp
    from False have eq: "hex_digits n = hex_digits (n div 16) @ [?d]"
      by (subst hex_digits.simps) simp
    have "scan_digits False acc (hex_digits n @ rest) =
          scan_digits False acc (hex_digits (n div 16) @ (?d # rest))"
      by (simp add: eq)
    also have "\<dots> = scan_digits False (acc * 16 ^ length (hex_digits (n div 16)) + n div 16) (?d # rest)"
      using "1.IH" [OF False] by simp
    also have "\<dots> = scan_digits False
        (16 * (acc * 16 ^ length (hex_digits (n div 16)) + n div 16) + n mod 16) rest"
      using hex_digit_value_hex_digit [OF d] hex_digit_not_underscore [OF d] by simp
    also have "16 * (acc * 16 ^ length (hex_digits (n div 16)) + n div 16) + n mod 16 =
        acc * 16 ^ length (hex_digits n) + n"
      by (simp add: eq algebra_simps)
    finally show ?thesis .
  qed
qed

lemma scan_digits_zeros:
  "scan_digits False 0 (replicate k (CHR ''0'') @ rest) = scan_digits False 0 rest"
  by (induction k) (simp_all add: hex_digit_value_def)

lemma hex_digits_length:
  "n < 16 ^ k \<Longrightarrow> 0 < k \<Longrightarrow> length (hex_digits n) \<le> k"
proof (induction n arbitrary: k rule: hex_digits.induct)
  case (1 n)
  show ?case
  proof (cases "n < 16")
    case True
    with "1.prems" show ?thesis by (subst hex_digits.simps) simp
  next
    case False
    with "1.prems" have "1 < k" by (cases "k = 1") auto
    then obtain k' where k: "k = Suc k'" "0 < k'" by (cases k) auto
    with "1.prems" have "n div 16 < 16 ^ k'"
      by (simp add: less_mult_imp_div_less mult.commute)
    from "1.IH" [OF False this k(2)] False show ?thesis
      by (subst hex_digits.simps) (simp add: k)
  qed
qed

lemma int_strip_clean:
  assumes "s \<noteq> []" "\<not> is_int_space (hd s)" "\<not> is_int_space (last s)"
  shows "int_strip s = s"
proof -
  from assms(1,2) have "dropWhile is_int_space s = s" by (cases s) auto
  moreover from assms(1,3) have "dropWhile is_int_space (rev s) = rev s"
    by (cases "rev s") (auto simp: last_rev [symmetric] simp del: last_rev)
  ultimately show ?thesis by (simp add: int_strip_def)
qed

lemma int_base16_literal:
  assumes body: "body \<noteq> []" "hd body \<noteq> CHR ''_''" "\<not> is_int_space (last body)"
      and scan: "scan_digits False 0 body = Some m"
  shows "int_base16 (sign_of n @ ''0x'' @ body) = Some (if n < 0 then - int m else int m)"
proof -
  let ?s = "sign_of n @ ''0x'' @ body"
  have "\<not> is_int_space (hd ?s)" by (simp add: sign_of_def is_int_space_def)
  moreover have "\<not> is_int_space (last ?s)" using body by simp
  ultimately have clean: "int_strip ?s = ?s" by (intro int_strip_clean) simp_all
  from body(1,2) have first: "take 1 body \<noteq> ''_''" by (cases body) auto
  show ?thesis
  proof (cases "n < 0")
    case True
    then have "?s = CHR ''-'' # CHR ''0'' # CHR ''x'' # body" by (simp add: sign_of_def)
    with clean have "int_strip ?s = CHR ''-'' # CHR ''0'' # CHR ''x'' # body" by simp
    with True body(1) first scan show ?thesis
      unfolding int_base16_def by (simp add: Let_def)
  next
    case False
    then have "?s = CHR ''0'' # CHR ''x'' # body" by (simp add: sign_of_def)
    with clean have "int_strip ?s = CHR ''0'' # CHR ''x'' # body" by simp
    with False body(1) first scan show ?thesis
      unfolding int_base16_def by (simp add: Let_def)
  qed
qed

lemma hex_digits_hd: "hd (hex_digits n) \<noteq> CHR ''_''"
proof -
  have "hd (hex_digits n) \<in> set (hex_digits n)" by (simp add: hex_digits_nonempty)
  with hex_digits_alphabet [of n] show ?thesis by auto
qed

lemma hex_digits_last_not_space: "\<not> is_int_space (last (hex_digits n))"
  by (simp add: hex_digits_last hex_digit_not_space)

lemma scan_hex_digits: "scan_digits False 0 (hex_digits n) = Some n"
  using scan_digits_hex_digits [of 0 n "[]"] by simp

lemma int_of_sign: "(if n < 0 then - int (nat \<bar>n\<bar>) else int (nat \<bar>n\<bar>)) = n"
  by simp

lemma int_base16_format_alt_x: "int_base16 (format_alt_x n) = Some n"
  unfolding format_alt_x_def
  using int_base16_literal [where n = n and body = "hex_digits (nat \<bar>n\<bar>)",
      OF hex_digits_nonempty hex_digits_hd hex_digits_last_not_space scan_hex_digits]
  by (simp only: int_of_sign)

lemma int_base16_format_alt_010x: "int_base16 (format_alt_010x n) = Some n"
proof -
  let ?ds = "hex_digits (nat \<bar>n\<bar>)"
  let ?k = "10 - (length (sign_of n) + 2 + length ?ds)"
  let ?body = "replicate ?k (CHR ''0'') @ ?ds"
  have ne: "?body \<noteq> []" by (simp add: hex_digits_nonempty)
  have hd: "hd ?body \<noteq> CHR ''_''"
    using hex_digits_hd [of "nat \<bar>n\<bar>"] by (cases ?k) (simp_all add: hex_digits_nonempty)
  have lst: "\<not> is_int_space (last ?body)"
    by (simp add: hex_digits_nonempty hex_digits_last_not_space)
  have scan: "scan_digits False 0 ?body = Some (nat \<bar>n\<bar>)"
    by (simp only: scan_digits_zeros scan_hex_digits)
  have "format_alt_010x n = sign_of n @ ''0x'' @ ?body"
    by (simp add: format_alt_010x_def Let_def)
  with int_base16_literal [where n = n, OF ne hd lst scan] show ?thesis
    by (simp only: int_of_sign)
qed

lemma format_alt_010x_32bit:
  assumes "0 \<le> v" "v < 2 ^ 32"
  shows "length (format_alt_010x v) = 10 \<and> take 2 (format_alt_010x v) = ''0x''
       \<and> set (drop 2 (format_alt_010x v)) \<subseteq> set ''0123456789abcdef''"
proof -
  from assms have "nat \<bar>v\<bar> < 16 ^ 8" by simp
  then have len: "length (hex_digits (nat \<bar>v\<bar>)) \<le> 8" by (rule hex_digits_length) simp
  have "set (replicate k (CHR ''0'') @ hex_digits m) \<subseteq> set ''0123456789abcdef''" for k m
    using hex_digits_alphabet [of m] by (cases k) auto
  with assms len show ?thesis
    by (simp add: format_alt_010x_def sign_of_def Let_def)
qed

section \<open>The emitters: auxiliary facts\<close>

lemma pm_static_loop_blocks:
  "pm_static_loop content partitions =
     content @ concat (map (\<lambda>r.
         get_pm_static_name (p_name r) @ '':\<newline>''
       @ ''  address: '' @ format_alt_x (p_start r) @ ''\<newline>''
       @ ''  end_address: '' @ format_alt_x (p_end r) @ ''\<newline>''
       @ ''  region: flash_primary\<newline>''
       @ ''  size: '' @ format_alt_x (p_size r) @ ''\<newline>\<newline>'') partitions)"
  by (induction partitions arbitrary: content) (simp_all add: Let_def)

lemma overlay_loop_nodes:
  "overlay_loop content partitions =
     content @ concat (map (\<lambda>r.
         TAB @ TAB @ (p_name r @ ''_partition'') @ '': partition@''
           @ format_x (p_start r) @ '' {\<newline>''
       @ TAB @ TAB @ TAB @ ''label = '' @ DQUOTE @ get_overlay_label (p_name r) @ DQUOTE
           @ '';\<newline>''
       @ TAB @ TAB @ TAB @ ''reg = <'' @ format_alt_010x (p_start r) @ '' ''
           @ format_alt_010x (p_size r) @ ''>;\<newline>''
       @ special_properties (p_name r)
       @ TAB @ TAB @ ''};\<newline>\<newline>'') partitions)"
  by (induction partitions arbitrary: content) (simp_all add: Let_def)

lemma get_pm_static_name_unmapped:
  "name \<notin> set [''mcuboot'', ''slot0'', ''slot1'', ''scratch'', ''storage'']
   \<Longrightarrow> get_pm_static_name name = name"
  by (simp add: get_pm_static_name_def name_mapping_def)

lemma get_overlay_label_unmapped:
  "name \<notin> set [''mcuboot'', ''slot0'', ''slot1'', ''scratch'', ''storage'']
   \<Longrightarrow> get_overlay_label name = name"
  by (simp add: get_overlay_label_def label_mapping_def)

lemma special_properties_read_only:
  "special_properties name = TAB @ TAB @ TAB @ ''read-only;\<newline>'' \<longleftrightarrow> name = ''mcuboot''"
  by (simp add: special_properties_def TAB_def)

lemma update_app_overlay_nodes:
  "update_app_overlay partitions =
     overlay_preamble
     @ concat (map (\<lambda>r.
         TAB @ TAB @ (p_name r @ ''_partition'') @ '': partition@''
           @ format_x (p_start r) @ '' {\<newline>''
       @ TAB @ TAB @ TAB @ ''label = '' @ DQUOTE @ get_overlay_label (p_name r) @ DQUOTE
           @ '';\<newline>''
       @ TAB @ TAB @ TAB @ ''reg = <'' @ format_alt_010x (p_start r) @ '' ''
           @ format_alt_010x (p_size r) @ ''>;\<newline>''
       @ special_properties (p_name r)
       @ TAB @ TAB @ ''};\<newline>\<newline>'') partitions)
     @ TAB @ ''};\<newline>'' @ ''};\<newline>''"
  unfolding update_app_overlay_def Let_def overlay_loop_nodes by simp

lemma replicate_zeros:
  "replicate 3 (CHR ''0'') = ''000''"
  "replicate 7 (CHR ''0'') = ''0000000''"
  by (simp_all add: numeral_eq_Suc)

lemma is_hex32_format:
  assumes "0 \<le> v" "v < 2 ^ 32"
  shows "is_hex32 (format_alt_010x v)"
  using format_alt_010x_32bit [OF assms] by (simp add: is_hex32_def list_all_iff subset_iff)

section \<open>Reading the partition-manager file: auxiliary facts\<close>

lemma strip_hd:
  assumes "strip s \<noteq> []"
  shows "\<not> is_space (hd (strip s))"
proof -
  let ?t = "dropWhile is_space s"
  have pre: "prefix (strip s) ?t"
  proof -
    have "suffix (dropWhile is_space (rev ?t)) (rev ?t)" by (rule suffix_dropWhile)
    then show ?thesis by (simp add: strip_def suffix_to_prefix)
  qed
  have "?t \<noteq> []"
  proof
    assume "?t = []"
    with pre have "strip s = []" by simp
    with assms show False by simp
  qed
  then have "\<not> is_space (hd ?t)" by (rule hd_dropWhile)
  moreover from pre assms have "hd (strip s) = hd ?t"
    by (auto simp: prefix_def)
  ultimately show ?thesis by simp
qed

lemma strip_no_space_prefix: "\<not> prefix '' '' (strip s)"
proof
  assume "prefix '' '' (strip s)"
  then obtain rest where eq: "strip s = CHR '' '' # rest" by (auto simp: prefix_def)
  then have "strip s \<noteq> []" by simp
  from strip_hd [OF this] eq show False by (simp add: is_space_def)
qed

lemma parse_line_key:
  "parse_line (c, d) raw =
     Some (case line_key raw of None \<Rightarrow> (c, d) | Some k \<Rightarrow> (Some k, dict_set d k []))"
  using strip_no_space_prefix [of raw]
  by (auto simp: parse_line_def line_key_def Let_def split: option.splits)

lemma parse_lines_keys:
  "\<exists>c'. parse_lines (c, d) ls =
     Some (c', foldl (\<lambda>d k. dict_set d k []) d (List.map_filter line_key ls))"
proof (induction ls arbitrary: c d)
  case Nil
  show ?case by simp
next
  case (Cons l ls)
  show ?case
  proof (cases "line_key l")
    case None
    with Cons.IH [of c d] show ?thesis
      by (simp add: parse_line_key)
  next
    case (Some k)
    with Cons.IH [of "Some k" "dict_set d k []"] show ?thesis
      by (simp add: parse_line_key)
  qed
qed

lemma dict_set_empty_entries:
  "list_all (\<lambda>e. snd e = []) d \<Longrightarrow> list_all (\<lambda>e. snd e = []) (dict_set d k [])"
  by (induction d) auto

lemma dict_fold_empty_entries:
  "list_all (\<lambda>e. snd e = []) d
   \<Longrightarrow> list_all (\<lambda>e. snd e = []) (foldl (\<lambda>d k. dict_set d k []) d ks)"
  by (induction ks arbitrary: d) (simp_all add: dict_set_empty_entries)

section \<open>The calculator: the claims\<close>

text \<open>
  Claim C1. For every request sequence of nonnegative sizes whose sum is at most the
  capacity, \<open>calculate_partitions\<close> succeeds and returns one record per request, in input
  order: the first record starts at 0, each record has its request's name and size, each
  record ends at its start plus its size, each record starts where the previous one ends
  (so an earlier record ends no later than a later one starts), and the last record ends
  at or below the capacity.
\<close>

theorem calculate_partitions_tiles:
  assumes nonneg: "\<forall>r \<in> set requests. 0 \<le> snd r"
      and fits: "sum_list (map snd requests) \<le> capacity"
  shows "\<exists>records.
      calculate_partitions capacity requests = Inr records
    \<and> length records = length requests
    \<and> (records \<noteq> [] \<longrightarrow> p_start (hd records) = 0)
    \<and> (\<forall>i < length records.
          p_name (records ! i) = fst (requests ! i)
        \<and> p_size (records ! i) = snd (requests ! i)
        \<and> p_end (records ! i) = p_start (records ! i) + p_size (records ! i))
    \<and> (\<forall>i. Suc i < length records \<longrightarrow> p_start (records ! Suc i) = p_end (records ! i))
    \<and> (\<forall>i j. i < j \<and> j < length records \<longrightarrow> p_end (records ! i) \<le> p_start (records ! j))
    \<and> (records \<noteq> [] \<longrightarrow> p_end (last records) \<le> capacity)"
proof -
  define records where "records = layout_from 0 requests"
  have len: "length records = length requests"
    by (simp add: records_def layout_from_length)
  have nth: "records ! i =
      \<lparr>p_name = fst (requests ! i), p_start = cumulative requests i,
       p_end = cumulative requests (Suc i), p_size = snd (requests ! i)\<rparr>"
    if "i < length requests" for i
    using layout_from_nth [OF that, of 0] by (simp add: records_def)
  have bound: "cumulative requests k \<le> capacity" if "k \<le> length requests" for k
    using cumulative_mono [OF nonneg that] fits by (simp add: cumulative_all)
  have "\<forall>i < length requests. 0 + cumulative requests (Suc i) \<le> capacity"
    using bound by simp
  from calculate_loop_fits [OF this, of "[]"]
  have run: "calculate_partitions capacity requests = Inr records"
    by (simp add: calculate_partitions_def records_def)
  have first: "records \<noteq> [] \<longrightarrow> p_start (hd records) = 0"
  proof
    assume "records \<noteq> []"
    then have "0 < length requests" using len by (cases records) auto
    from nth [OF this] \<open>records \<noteq> []\<close> show "p_start (hd records) = 0"
      by (simp add: hd_conv_nth cumulative_def)
  qed
  have each: "\<forall>i < length records.
          p_name (records ! i) = fst (requests ! i)
        \<and> p_size (records ! i) = snd (requests ! i)
        \<and> p_end (records ! i) = p_start (records ! i) + p_size (records ! i)"
    using nth len by (simp add: cumulative_Suc)
  have contiguous: "\<forall>i. Suc i < length records \<longrightarrow> p_start (records ! Suc i) = p_end (records ! i)"
    using nth len by simp
  have disjoint: "\<forall>i j. i < j \<and> j < length records \<longrightarrow> p_end (records ! i) \<le> p_start (records ! j)"
  proof (intro allI impI)
    fix i j assume ij: "i < j \<and> j < length records"
    then have "Suc i \<le> j" by simp
    from cumulative_mono [OF nonneg this] ij nth len
    show "p_end (records ! i) \<le> p_start (records ! j)" by simp
  qed
  have bounded: "records \<noteq> [] \<longrightarrow> p_end (last records) \<le> capacity"
  proof
    assume ne: "records \<noteq> []"
    then have pos: "length requests - 1 < length requests" using len by (cases records) auto
    from ne have "last records = records ! (length requests - 1)"
      by (simp add: last_conv_nth len)
    with nth [OF pos] have "p_end (last records) = cumulative requests (Suc (length requests - 1))"
      by simp
    with bound [of "Suc (length requests - 1)"] pos show "p_end (last records) \<le> capacity"
      by simp
  qed
  from run len first each contiguous disjoint bounded show ?thesis by blast
qed

theorem calculate_partitions_tiles_witness:
  "list_all (\<lambda>r. 0 \<le> snd r) [(''a'', 600), (''b'', 400 :: int)]
   \<and> sum_list (map snd [(''a'', 600), (''b'', 400 :: int)]) \<le> 1024
   \<and> calculate_partitions 1024 [(''a'', 600), (''b'', 400)] =
       Inr [\<lparr>p_name = ''a'', p_start = 0, p_end = 600, p_size = 600\<rparr>,
            \<lparr>p_name = ''b'', p_start = 600, p_end = 1000, p_size = 400\<rparr>]"
proof -
  have h1: "\<forall>r \<in> set [(''a'', 600), (''b'', 400 :: int)]. 0 \<le> snd r" by simp
  have h2: "sum_list (map snd [(''a'', 600), (''b'', 400 :: int)]) \<le> 1024" by simp
  from calculate_partitions_tiles [OF h1 h2]
  obtain records where "calculate_partitions 1024 [(''a'', 600), (''b'', 400)] = Inr records"
    by blast
  then have "calculate_partitions 1024 [(''a'', 600), (''b'', 400)] =
       Inr [\<lparr>p_name = ''a'', p_start = 0, p_end = 600, p_size = 600\<rparr>,
            \<lparr>p_name = ''b'', p_start = 600, p_end = 1000, p_size = 400\<rparr>]"
    by (simp add: calculate_partitions_def)
  with h2 show ?thesis by simp
qed






text \<open>
  Claim C4, as stated, fails: the five sizes of the example sum to 1,051,648, which is
  more than the capacity 1,048,576, so the call does not succeed.
\<close>

theorem spec_example_layout_counterexample:
  "isl (calculate_partitions 1048576
     [(''mcuboot'', 112640), (''slot0'', 430080), (''slot1'', 430080),
      (''scratch'', 1024), (''storage'', 77824)])"
  by (simp add: calculate_partitions_def)

text \<open>
  Claim C4, amended. With capacity 1,048,576 and the requests mcuboot 112640, slot0 430080,
  slot1 430080, scratch 1024, storage 77824, whose sizes sum to 1,051,648,
  \<open>calculate_partitions\<close> raises the \<open>ValueError\<close> that names \<open>storage\<close> and returns no
  records.
\<close>

theorem spec_example_layout:
  "sum_list (map snd
     [(''mcuboot'', 112640), (''slot0'', 430080), (''slot1'', 430080),
      (''scratch'', 1024), (''storage'', 77824 :: int)]) = 1051648
   \<and> calculate_partitions 1048576
     [(''mcuboot'', 112640), (''slot0'', 430080), (''slot1'', 430080),
      (''scratch'', 1024), (''storage'', 77824)] =
     Inl (ValueError ''Partition 'storage' exceeds flash size!'')"
  by (simp add: calculate_partitions_def exceeds_message_def)

text \<open>
  Claim C9. The configuration built into \<open>main\<close> tiles the flash exactly: the flash size
  is 1048576, mcuboot 112640, storage 77824, scratch 1024, and each slot is
  \<open>(FLASH_SIZE - mcuboot - storage - scratch) // 2 = 428544\<close>; the remainder is even, the
  sizes sum to the flash size, the layout computation of \<open>main\<close> does not raise, and the
  last record ends at \<open>0x100000\<close>.
\<close>

theorem main_layout_tiles:
  "FLASH_SIZE = 1048576 \<and> mcuboot = 112640 \<and> storage = 77824 \<and> scratch = 1024
   \<and> slot0_partition = 428544 \<and> slot1_partition = 428544
   \<and> (FLASH_SIZE - mcuboot - storage - scratch) mod 2 = 0
   \<and> sum_list (map snd main_partitions) = FLASH_SIZE
   \<and> main_layout =
       Inr [\<lparr>p_name = ''mcuboot'', p_start = 0, p_end = 0x1B800, p_size = 112640\<rparr>,
            \<lparr>p_name = ''slot0'', p_start = 0x1B800, p_end = 0x84200, p_size = 428544\<rparr>,
            \<lparr>p_name = ''slot1'', p_start = 0x84200, p_end = 0xECC00, p_size = 428544\<rparr>,
            \<lparr>p_name = ''scratch'', p_start = 0xECC00, p_end = 0xED000, p_size = 1024\<rparr>,
            \<lparr>p_name = ''storage'', p_start = 0xED000, p_end = 0x100000, p_size = 77824\<rparr>]
   \<and> p_end (last (projr main_layout)) = 0x100000"
  by (simp add: main_layout_def main_partitions_def calculate_partitions_def FLASH_SIZE_def
      mcuboot_def storage_def scratch_def slot0_partition_def slot1_partition_def)

section \<open>The emitters: the claims\<close>

text \<open>
  Claim C6. The partition-manager emitter maps each record's name through the fixed table
  mcuboot to mcuboot, slot0 to mcuboot_primary, slot1 to mcuboot_secondary, scratch to
  mcuboot_scratch, storage to settings_storage, and passes every other name through
  unchanged. After its two comment lines it emits one block per record, in input order:
  the mapped name, the address in hexadecimal, the end address in hexadecimal, the fixed
  region \<open>flash_primary\<close>, and the size in hexadecimal. The hexadecimal text of a number is
  the one that \<^verbatim>\<open>int(text, 16)\<close> reads back as that number.
\<close>

theorem pm_static_emitter:
  "get_pm_static_name ''mcuboot'' = ''mcuboot''
   \<and> get_pm_static_name ''slot0'' = ''mcuboot_primary''
   \<and> get_pm_static_name ''slot1'' = ''mcuboot_secondary''
   \<and> get_pm_static_name ''scratch'' = ''mcuboot_scratch''
   \<and> get_pm_static_name ''storage'' = ''settings_storage''
   \<and> (name \<notin> set [''mcuboot'', ''slot0'', ''slot1'', ''scratch'', ''storage'']
        \<longrightarrow> get_pm_static_name name = name)
   \<and> update_pm_static_yml records =
       ''# Auto-generated pm_static.yml from partion.py\<newline>''
     @ ''# Nordic Partition Manager static configuration\<newline>\<newline>''
     @ concat (map (\<lambda>r.
         get_pm_static_name (p_name r) @ '':\<newline>''
       @ ''  address: '' @ format_alt_x (p_start r) @ ''\<newline>''
       @ ''  end_address: '' @ format_alt_x (p_end r) @ ''\<newline>''
       @ ''  region: flash_primary\<newline>''
       @ ''  size: '' @ format_alt_x (p_size r) @ ''\<newline>\<newline>'') records)
   \<and> int_base16 (format_alt_x n) = Some n"
proof -
  have table: "get_pm_static_name ''mcuboot'' = ''mcuboot''"
    "get_pm_static_name ''slot0'' = ''mcuboot_primary''"
    "get_pm_static_name ''slot1'' = ''mcuboot_secondary''"
    "get_pm_static_name ''scratch'' = ''mcuboot_scratch''"
    "get_pm_static_name ''storage'' = ''settings_storage''"
    by (simp_all add: get_pm_static_name_def name_mapping_def)
  have emitted: "update_pm_static_yml records =
       ''# Auto-generated pm_static.yml from partion.py\<newline>''
     @ ''# Nordic Partition Manager static configuration\<newline>\<newline>''
     @ concat (map (\<lambda>r.
         get_pm_static_name (p_name r) @ '':\<newline>''
       @ ''  address: '' @ format_alt_x (p_start r) @ ''\<newline>''
       @ ''  end_address: '' @ format_alt_x (p_end r) @ ''\<newline>''
       @ ''  region: flash_primary\<newline>''
       @ ''  size: '' @ format_alt_x (p_size r) @ ''\<newline>\<newline>'') records)"
    unfolding update_pm_static_yml_def Let_def pm_static_loop_blocks by simp
  from table emitted get_pm_static_name_unmapped [of name] int_base16_format_alt_x [of n]
  show ?thesis by blast
qed

theorem pm_static_emitter_witness:
  "''app'' \<notin> set [''mcuboot'', ''slot0'', ''slot1'', ''scratch'', ''storage'']
   \<and> get_pm_static_name ''app'' = ''app''
   \<and> update_pm_static_yml
         [\<lparr>p_name = ''slot0'', p_start = 16, p_end = 48, p_size = 32\<rparr>,
          \<lparr>p_name = ''app'', p_start = 48, p_end = 303, p_size = 255\<rparr>] =
       ''# Auto-generated pm_static.yml from partion.py\<newline># Nordic Partition Manager static configuration\<newline>\<newline>mcuboot_primary:\<newline>  address: 0x10\<newline>  end_address: 0x30\<newline>  region: flash_primary\<newline>  size: 0x20\<newline>\<newline>app:\<newline>  address: 0x30\<newline>  end_address: 0x12f\<newline>  region: flash_primary\<newline>  size: 0xff\<newline>\<newline>''"
proof -
  have h: "''app'' \<notin> set [''mcuboot'', ''slot0'', ''slot1'', ''scratch'', ''storage'']"
    by simp
  from pm_static_emitter [of "''app''"
      "[\<lparr>p_name = ''slot0'', p_start = 16, p_end = 48, p_size = 32\<rparr>,
        \<lparr>p_name = ''app'', p_start = 48, p_end = 303, p_size = 255\<rparr>]" 0] h
  show ?thesis
    by (simp add: format_alt_x_def sign_of_def hex_digits.simps hex_digit_def)
qed

text \<open>
  Claim C7. For every record, the overlay emitter produces a device-tree node whose node
  name is the record's name followed by \<open>_partition\<close>, whose label comes from the second
  table (slot0 to image-0, slot1 to image-1, scratch to image-scratch, storage to storage,
  every other name unchanged), whose \<open>reg\<close> property holds the start and the size as
  32-bit values in hexadecimal, and which carries the read-only marker exactly when the
  name is \<open>mcuboot\<close> (a comment for slot0, slot1, scratch and storage, nothing for any
  other name). The overlay declares one 32-bit cell for an address and one for a size, so
  the values are those from 0 to \<open>2^32 - 1\<close>: for each of them the cell is the prefix
  \<^verbatim>\<open>0x\<close> and exactly eight hexadecimal digits, which read back as the value. Every
  record of a layout that \<open>calculate_partitions\<close> computes from nonnegative sizes for a
  capacity below \<open>2^32\<close> has such a start and such a size.
\<close>

theorem overlay_emitter_nodes:
  "update_app_overlay records =
     overlay_preamble
     @ concat (map (\<lambda>r.
         TAB @ TAB @ (p_name r @ ''_partition'') @ '': partition@''
           @ format_x (p_start r) @ '' {\<newline>''
       @ TAB @ TAB @ TAB @ ''label = '' @ DQUOTE @ get_overlay_label (p_name r) @ DQUOTE
           @ '';\<newline>''
       @ TAB @ TAB @ TAB @ ''reg = <'' @ format_alt_010x (p_start r) @ '' ''
           @ format_alt_010x (p_size r) @ ''>;\<newline>''
       @ special_properties (p_name r)
       @ TAB @ TAB @ ''};\<newline>\<newline>'') records)
     @ TAB @ ''};\<newline>'' @ ''};\<newline>''
   \<and> get_overlay_label ''mcuboot'' = ''mcuboot''
   \<and> get_overlay_label ''slot0'' = ''image-0''
   \<and> get_overlay_label ''slot1'' = ''image-1''
   \<and> get_overlay_label ''scratch'' = ''image-scratch''
   \<and> get_overlay_label ''storage'' = ''storage''
   \<and> (name \<notin> set [''mcuboot'', ''slot0'', ''slot1'', ''scratch'', ''storage'']
        \<longrightarrow> get_overlay_label name = name \<and> special_properties name = [])
   \<and> (special_properties name = TAB @ TAB @ TAB @ ''read-only;\<newline>''
        \<longleftrightarrow> name = ''mcuboot'')
   \<and> special_properties ''slot0'' = TAB @ TAB @ TAB @ ''// Primary application slot\<newline>''
   \<and> special_properties ''slot1'' = TAB @ TAB @ TAB @ ''// Secondary application slot\<newline>''
   \<and> special_properties ''scratch'' = TAB @ TAB @ TAB @ ''// MCUboot scratch area\<newline>''
   \<and> special_properties ''storage'' = TAB @ TAB @ TAB @ ''// Settings storage\<newline>''
   \<and> (0 \<le> v \<and> v < 2 ^ 32
        \<longrightarrow> is_hex32 (format_alt_010x v) \<and> int_base16 (format_alt_010x v) = Some v)
   \<and> ((\<forall>q \<in> set requests. 0 \<le> snd q) \<and> capacity < 2 ^ 32
        \<and> calculate_partitions capacity requests = Inr layout \<and> r \<in> set layout
        \<longrightarrow> is_hex32 (format_alt_010x (p_start r)) \<and> is_hex32 (format_alt_010x (p_size r))
          \<and> int_base16 (format_alt_010x (p_start r)) = Some (p_start r)
          \<and> int_base16 (format_alt_010x (p_size r)) = Some (p_size r))"
proof -
  have labels: "get_overlay_label ''mcuboot'' = ''mcuboot''"
    "get_overlay_label ''slot0'' = ''image-0''"
    "get_overlay_label ''slot1'' = ''image-1''"
    "get_overlay_label ''scratch'' = ''image-scratch''"
    "get_overlay_label ''storage'' = ''storage''"
    by (simp_all add: get_overlay_label_def label_mapping_def)
  have unmapped: "name \<notin> set [''mcuboot'', ''slot0'', ''slot1'', ''scratch'', ''storage'']
        \<longrightarrow> get_overlay_label name = name \<and> special_properties name = []"
    using get_overlay_label_unmapped [of name] by (simp add: special_properties_def)
  have comments:
    "special_properties ''slot0'' = TAB @ TAB @ TAB @ ''// Primary application slot\<newline>''"
    "special_properties ''slot1'' = TAB @ TAB @ TAB @ ''// Secondary application slot\<newline>''"
    "special_properties ''scratch'' = TAB @ TAB @ TAB @ ''// MCUboot scratch area\<newline>''"
    "special_properties ''storage'' = TAB @ TAB @ TAB @ ''// Settings storage\<newline>''"
    by (simp_all add: special_properties_def)
  have cells: "0 \<le> v \<and> v < 2 ^ 32
        \<longrightarrow> is_hex32 (format_alt_010x v) \<and> int_base16 (format_alt_010x v) = Some v"
    using is_hex32_format [of v] int_base16_format_alt_010x [of v] by simp
  have computed: "(\<forall>q \<in> set requests. 0 \<le> snd q) \<and> capacity < 2 ^ 32
        \<and> calculate_partitions capacity requests = Inr layout \<and> r \<in> set layout
        \<longrightarrow> is_hex32 (format_alt_010x (p_start r)) \<and> is_hex32 (format_alt_010x (p_size r))
          \<and> int_base16 (format_alt_010x (p_start r)) = Some (p_start r)
          \<and> int_base16 (format_alt_010x (p_size r)) = Some (p_size r)"
  proof
    assume h: "(\<forall>q \<in> set requests. 0 \<le> snd q) \<and> capacity < 2 ^ 32
        \<and> calculate_partitions capacity requests = Inr layout \<and> r \<in> set layout"
    then have b: "0 \<le> p_start r \<and> p_start r \<le> capacity
        \<and> 0 \<le> p_size r \<and> p_size r \<le> capacity"
      using computed_layout_bounds [of requests capacity layout r] by blast
    with h have "0 \<le> p_start r" "p_start r < 2 ^ 32" "0 \<le> p_size r" "p_size r < 2 ^ 32"
      by simp_all
    then show "is_hex32 (format_alt_010x (p_start r)) \<and> is_hex32 (format_alt_010x (p_size r))
          \<and> int_base16 (format_alt_010x (p_start r)) = Some (p_start r)
          \<and> int_base16 (format_alt_010x (p_size r)) = Some (p_size r)"
      by (simp add: is_hex32_format int_base16_format_alt_010x)
  qed
  from update_app_overlay_nodes [of records] labels unmapped
    special_properties_read_only [of name] comments cells computed
  show ?thesis by (intro conjI) assumption+
qed

theorem overlay_emitter_nodes_witness:
  "''app'' \<notin> set [''mcuboot'', ''slot0'', ''slot1'', ''scratch'', ''storage'']
   \<and> get_overlay_label ''app'' = ''app''
   \<and> (0::int) \<le> 112640 \<and> (112640::int) < 2 ^ 32
   \<and> list_all (\<lambda>q. 0 \<le> snd q) [(''mcuboot'', 112640 :: int)]
   \<and> (1048576::int) < 2 ^ 32
   \<and> calculate_partitions 1048576 [(''mcuboot'', 112640)] =
       Inr [\<lparr>p_name = ''mcuboot'', p_start = 0, p_end = 112640, p_size = 112640\<rparr>]
   \<and> is_hex32 (format_alt_010x 0)
   \<and> is_hex32 (format_alt_010x 112640)
   \<and> format_alt_010x 0 = ''0x00000000''
   \<and> format_alt_010x 112640 = ''0x0001b800''
   \<and> update_app_overlay
        [\<lparr>p_name = ''mcuboot'', p_start = 0, p_end = 112640, p_size = 112640\<rparr>] =
      overlay_preamble
      @ TAB @ TAB @ ''mcuboot_partition: partition@0 {\<newline>''
      @ TAB @ TAB @ TAB @ ''label = '' @ DQUOTE @ ''mcuboot'' @ DQUOTE @ '';\<newline>''
      @ TAB @ TAB @ TAB @ ''reg = <0x00000000 0x0001b800>;\<newline>''
      @ TAB @ TAB @ TAB @ ''read-only;\<newline>''
      @ TAB @ TAB @ ''};\<newline>\<newline>''
      @ TAB @ ''};\<newline>};\<newline>''"
proof -
  let ?r = "\<lparr>p_name = ''mcuboot'', p_start = 0, p_end = 112640, p_size = 112640\<rparr>"
  have h: "''app'' \<notin> set [''mcuboot'', ''slot0'', ''slot1'', ''scratch'', ''storage'']"
    by simp
  have v: "(0::int) \<le> 112640 \<and> (112640::int) < 2 ^ 32" by simp
  have q: "\<forall>q \<in> set [(''mcuboot'', 112640 :: int)]. 0 \<le> snd q" by simp
  have c: "(1048576::int) < 2 ^ 32" by simp
  have run: "calculate_partitions 1048576 [(''mcuboot'', 112640)] = Inr [?r]"
    by (simp add: calculate_partitions_def)
  have m: "?r \<in> set [?r]" by simp
  have f: "format_alt_010x 112640 = ''0x0001b800''" "format_alt_010x 0 = ''0x00000000''"
    "format_x 0 = ''0''"
    by (simp_all add: format_alt_010x_def format_x_def sign_of_def hex_digits.simps hex_digit_def
        replicate_zeros)
  from overlay_emitter_nodes [of "[?r]" "''app''" 112640 "[(''mcuboot'', 112640)]"
      1048576 "[?r]" ?r] h v q c run m
  have "update_app_overlay [?r] =
      overlay_preamble
      @ TAB @ TAB @ ''mcuboot_partition: partition@0 {\<newline>''
      @ TAB @ TAB @ TAB @ ''label = '' @ DQUOTE @ ''mcuboot'' @ DQUOTE @ '';\<newline>''
      @ TAB @ TAB @ TAB @ ''reg = <0x00000000 0x0001b800>;\<newline>''
      @ TAB @ TAB @ TAB @ ''read-only;\<newline>''
      @ TAB @ TAB @ ''};\<newline>\<newline>''
      @ TAB @ ''};\<newline>};\<newline>''"
    and "is_hex32 (format_alt_010x 0)" and "is_hex32 (format_alt_010x 112640)"
    and "get_overlay_label ''app'' = ''app''"
    by (simp_all add: f special_properties_def)
  with h run f show ?thesis by simp
qed

text \<open>
  Claim C8. For the empty request sequence \<open>calculate_partitions\<close> returns the empty
  record sequence, and on the empty record sequence the partition-manager emitter writes
  its two comment lines only, and the overlay emitter writes its preamble (the comments,
  the root node with the chosen entry, the opening of the partitions container) and the
  two closing lines only.
\<close>

theorem empty_layout:
  "calculate_partitions capacity [] = Inr []
   \<and> update_pm_static_yml [] =
       ''# Auto-generated pm_static.yml from partion.py\<newline># Nordic Partition Manager static configuration\<newline>\<newline>''
   \<and> update_app_overlay [] = overlay_preamble @ TAB @ ''};\<newline>};\<newline>''
   \<and> overlay_preamble =
       ''// Auto-generated app.overlay from partion.py\<newline>''
     @ ''// Device tree overlay for partition configuration\<newline>\<newline>''
     @ ''/ {\<newline>''
     @ TAB @ ''chosen {\<newline>''
     @ TAB @ TAB @ ''zephyr,code-partition = &slot0_partition;\<newline>''
     @ TAB @ ''};\<newline>''
     @ ''};\<newline>\<newline>''
     @ ''&flash0 {\<newline>''
     @ TAB @ ''partitions {\<newline>''
     @ TAB @ TAB @ ''compatible = '' @ DQUOTE @ ''fixed-partitions'' @ DQUOTE @ '';\<newline>''
     @ TAB @ TAB @ ''#address-cells = <1>;\<newline>''
     @ TAB @ TAB @ ''#size-cells = <1>;\<newline>\<newline>''"
  by (simp add: calculate_partitions_def update_pm_static_yml_def update_app_overlay_def
      overlay_preamble_def Let_def)

text \<open>
  Claim C10. For every record sequence the text of the overlay emitter begins with the same
  preamble, and the preamble holds the entry
  \<^verbatim>\<open>zephyr,code-partition = &slot0_partition;\<close>. The entry is therefore written whatever
  the records are; for the empty sequence the text is the preamble and the two closing
  lines, with no node at all.
\<close>

theorem overlay_code_partition_reference:
  "prefix overlay_preamble (update_app_overlay records)
   \<and> sublist (TAB @ TAB @ ''zephyr,code-partition = &slot0_partition;\<newline>'') overlay_preamble
   \<and> sublist (TAB @ TAB @ ''zephyr,code-partition = &slot0_partition;\<newline>'')
        (update_app_overlay records)
   \<and> update_app_overlay [] = overlay_preamble @ TAB @ ''};\<newline>};\<newline>''"
proof -
  let ?entry = "TAB @ TAB @ ''zephyr,code-partition = &slot0_partition;\<newline>''"
  have pre: "prefix overlay_preamble (update_app_overlay records)"
    unfolding update_app_overlay_nodes by simp
  have "overlay_preamble =
      (''// Auto-generated app.overlay from partion.py\<newline>''
       @ ''// Device tree overlay for partition configuration\<newline>\<newline>''
       @ ''/ {\<newline>'' @ TAB @ ''chosen {\<newline>'')
      @ ?entry
      @ (TAB @ ''};\<newline>'' @ ''};\<newline>\<newline>'' @ ''&flash0 {\<newline>''
         @ TAB @ ''partitions {\<newline>''
         @ TAB @ TAB @ ''compatible = '' @ DQUOTE @ ''fixed-partitions'' @ DQUOTE @ '';\<newline>''
         @ TAB @ TAB @ ''#address-cells = <1>;\<newline>''
         @ TAB @ TAB @ ''#size-cells = <1>;\<newline>\<newline>'')"
    by (simp add: overlay_preamble_def Let_def)
  then have sub: "sublist ?entry overlay_preamble"
    by (metis sublist_appendI)
  from pre have "sublist overlay_preamble (update_app_overlay records)"
    by (rule prefix_imp_sublist)
  with sub have all: "sublist ?entry (update_app_overlay records)"
    by (rule sublist_order.order.trans)
  have "update_app_overlay [] = overlay_preamble @ TAB @ ''};\<newline>};\<newline>''"
    by (simp add: update_app_overlay_def Let_def)
  with pre sub all show ?thesis by blast
qed

section \<open>Emitting and reading back the partition-manager file: the claim\<close>

text \<open>
  Claim C5 says that parsing the partition-manager text emitted for a record sequence
  recovers the same tuples of name, start, end and size, in the same order, with start read
  from the \<open>address\<close> field, end from \<open>end_address\<close> and size from \<open>size\<close>. The parser
  of \<open>analyze_flash.py\<close> does not do that. It strips each line before it tests that the
  line does not start with a blank, so every line that holds a colon is taken as the
  header of a partition and the branch that reads a field is never reached: for every
  content of the file the parser returns a dictionary whose entries are all empty. For
  the record \<open>app\<close> from \<open>0x30\<close> to \<open>0x12f\<close>, whose name the emitter writes unchanged,
  the result has five entries, one for each line of the block, and none holds a number.
\<close>

theorem analyze_partition_usage_stores_nothing:
  "(\<exists>d. analyze_partition_usage (Some content) = Some d \<and> list_all (\<lambda>e. snd e = []) d)
   \<and> analyze_partition_usage (Some (update_pm_static_yml
         [\<lparr>p_name = ''app'', p_start = 48, p_end = 303, p_size = 255\<rparr>])) =
       Some [(''app'', []), (''address: 0x30'', []), (''end_address: 0x12f'', []),
             (''region: flash_primary'', []), (''size: 0xff'', [])]
   \<and> recovered_tuples
         [(''app'', []), (''address: 0x30'', []), (''end_address: 0x12f'', []),
          (''region: flash_primary'', []), (''size: 0xff'', [])] =
       [(''app'', None, None, None), (''address: 0x30'', None, None, None),
        (''end_address: 0x12f'', None, None, None),
        (''region: flash_primary'', None, None, None), (''size: 0xff'', None, None, None)]
   \<and> record_tuples [\<lparr>p_name = ''app'', p_start = 48, p_end = 303, p_size = 255\<rparr>] =
       [(''app'', Some 48, Some 303, Some 255)]"
proof -
  obtain c where "parse_lines (None, []) (file_lines content) =
      Some (c, foldl (\<lambda>d k. dict_set d k []) []
                 (List.map_filter line_key (file_lines content)))"
    using parse_lines_keys [of None "[]" "file_lines content"] by blast
  then have run: "analyze_partition_usage (Some content) =
      Some (foldl (\<lambda>d k. dict_set d k []) []
              (List.map_filter line_key (file_lines content)))"
    by (simp add: analyze_partition_usage_def)
  have "list_all (\<lambda>e. snd e = [])
      (foldl (\<lambda>d k. dict_set d k ([] :: partition_fields)) []
         (List.map_filter line_key (file_lines content)))"
    by (rule dict_fold_empty_entries) simp
  with run have general:
    "\<exists>d. analyze_partition_usage (Some content) = Some d \<and> list_all (\<lambda>e. snd e = []) d"
    by blast
  have parsed: "analyze_partition_usage (Some (update_pm_static_yml
         [\<lparr>p_name = ''app'', p_start = 48, p_end = 303, p_size = 255\<rparr>])) =
       Some [(''app'', []), (''address: 0x30'', []), (''end_address: 0x12f'', []),
             (''region: flash_primary'', []), (''size: 0xff'', [])]"
    by code_simp
  have recovered: "recovered_tuples
         [(''app'', []), (''address: 0x30'', []), (''end_address: 0x12f'', []),
          (''region: flash_primary'', []), (''size: 0xff'', [])] =
       [(''app'', None, None, None), (''address: 0x30'', None, None, None),
        (''end_address: 0x12f'', None, None, None),
        (''region: flash_primary'', None, None, None), (''size: 0xff'', None, None, None)]"
    by (simp add: recovered_tuples_def)
  have expected:
    "record_tuples [\<lparr>p_name = ''app'', p_start = 48, p_end = 303, p_size = 255\<rparr>] =
       [(''app'', Some 48, Some 303, Some 255)]"
    by (simp add: record_tuples_def)
  from general parsed recovered expected show ?thesis by blast
qed

end
